theory Spec2Isabelle
  imports
    Complex_Main
    "HOL-Library.Word"
    "HOL-Library.Char_ord"
    "HOL-Library.List_Lexorder"
    "HOL-Library.AList"
    "HOL-Library.Multiset"
begin

section \<open>ReponoDB: values, schemas, commits\<close>

text \<open>
  A shallow embedding of the versioning core of ReponoDB (namespace \<open>repono\<close>):
  the \<open>Value\<close> variant with its display, equality and ordering functions, column
  definitions and schemas with their validation, and commits with their content hash.
  Strings are byte strings (\<open>char list\<close>); their order is the byte-wise lexicographic
  order of \<open>std::string\<close>, which is the order of \<open>HOL-Library.List_Lexorder\<close> over
  \<open>HOL-Library.Char_ord\<close>.
\<close>

subsection \<open>The primitive types of the variant\<close>

text \<open>
  \<open>int64_t\<close> is a 64-bit word read as two's complement. \<open>double\<close> is an IEEE-754
  binary64 value: a NaN (with its sign bit), an infinity, negative zero, or a finite
  number given by its exact rational value (\<open>DFin 0\<close> is positive zero). The type has
  more finite values than binary64 has; everything proved for all of them holds for the
  representable ones.
\<close>

type_synonym int64 = "64 word"

datatype double = is_NaN: DNaN bool | DNegInf | DNegZero | DFin rat | DPosInf

text \<open>The comparison \<open><\<close> of two doubles: false when either is a NaN.\<close>

fun double_less :: "double \<Rightarrow> double \<Rightarrow> bool" where
  "double_less (DNaN s) b = False"
| "double_less a (DNaN s) = False"
| "double_less a DNegInf = False"
| "double_less DNegInf b = True"
| "double_less DPosInf b = False"
| "double_less a DPosInf = True"
| "double_less DNegZero DNegZero = False"
| "double_less DNegZero (DFin y) = (0 < y)"
| "double_less (DFin x) DNegZero = (x < 0)"
| "double_less (DFin x) (DFin y) = (x < y)"

text \<open>The comparison \<open>==\<close> of two doubles: a NaN equals nothing, the two zeros are equal.\<close>

fun double_eq :: "double \<Rightarrow> double \<Rightarrow> bool" where
  "double_eq (DNaN s) b = False"
| "double_eq a (DNaN s) = False"
| "double_eq DNegInf b = (b = DNegInf)"
| "double_eq DPosInf b = (b = DPosInf)"
| "double_eq DNegZero DNegZero = True"
| "double_eq DNegZero (DFin y) = (y = 0)"
| "double_eq (DFin x) DNegZero = (x = 0)"
| "double_eq (DFin x) (DFin y) = (x = y)"
| "double_eq a b = False"

text \<open>
  \<open>static_cast<double>\<close> of an \<open>int64_t\<close>: the nearest value with a 53-bit
  significand, ties to the even significand. \<open>bit_length a\<close> is the number of
  binary digits of the magnitude and \<open>binade a\<close> the number of low bits that do not
  fit into the significand (0 below \<open>2^53\<close>, 11 at \<open>2^63\<close>).
\<close>

fun bit_length :: "nat \<Rightarrow> nat" where
  "bit_length n = (if n = 0 then 0 else Suc (bit_length (n div 2)))"

declare bit_length.simps [simp del]

definition binade :: "nat \<Rightarrow> nat" where
  "binade a = bit_length a - 53"

definition round_to_multiple :: "nat \<Rightarrow> nat \<Rightarrow> nat" where
  "round_to_multiple q a =
     (let d = a div q; r = a mod q
      in if q < 2 * r \<or> (2 * r = q \<and> odd d) then (d + 1) * q else d * q)"

definition round53 :: "nat \<Rightarrow> nat" where
  "round53 a = round_to_multiple (2 ^ binade a) a"

definition round53_int :: "int \<Rightarrow> int" where
  "round53_int i = (if i < 0 then - int (round53 (nat (- i))) else int (round53 (nat i)))"

definition int64_to_double :: "int64 \<Rightarrow> double" where
  "int64_to_double w = DFin (of_int (round53_int (sint w)))"

subsection \<open>Decimal and hexadecimal text\<close>

fun show_nat :: "nat \<Rightarrow> string" where
  "show_nat n =
     (if n < 10 then [''0123456789'' ! n]
      else show_nat (n div 10) @ [''0123456789'' ! (n mod 10)])"

declare show_nat.simps [simp del]

text \<open>\<open>std::to_string\<close> of an \<open>int64_t\<close>, and \<open>operator<<\<close> of one: signed decimal.\<close>

definition to_string :: "int64 \<Rightarrow> string" where
  "to_string w = (if sint w < 0 then ''-'' @ show_nat (nat (- sint w)) else show_nat (nat (sint w)))"

text \<open>
  \<open>oss << std::fixed << std::setprecision(2) << d\<close>: two digits after the point, the
  exact value rounded to the nearest hundredth, ties to even.
\<close>

definition round_half_even :: "rat \<Rightarrow> nat" where
  "round_half_even q =
     (let f = nat \<lfloor>q\<rfloor>; t = q - of_nat f
      in if 1 / 2 < t \<or> (t = 1 / 2 \<and> odd f) then f + 1 else f)"

definition fixed2_digits :: "rat \<Rightarrow> string" where
  "fixed2_digits q =
     (let n = round_half_even (q * 100)
      in show_nat (n div 100) @ ''.'' @ [''0123456789'' ! (n mod 100 div 10), ''0123456789'' ! (n mod 10)])"

fun fixed2 :: "double \<Rightarrow> string" where
  "fixed2 (DNaN s) = (if s then ''-nan'' else ''nan'')"
| "fixed2 DNegInf = ''-inf''"
| "fixed2 DPosInf = ''inf''"
| "fixed2 DNegZero = ''-0.00''"
| "fixed2 (DFin x) = (if x < 0 then ''-'' @ fixed2_digits (- x) else fixed2_digits x)"

subsection \<open>Exceptions\<close>

text \<open>
  The exceptions the modelled code can throw: \<open>std::bad_variant_access\<close> from
  \<open>std::get\<close> on a variant that holds another alternative, and \<open>std::out_of_range\<close>
  from \<open>unordered_map::at\<close>. A function that can throw returns \<open>error + 'a\<close>.
\<close>

datatype error = BadVariantAccess | OutOfRange

subsection \<open>Value\<close>

text \<open>
  \<open>using Value = std::variant<std::monostate, int64_t, double, std::string, bool>\<close>;
  \<open>index\<close> is the variant's \<open>index()\<close>, the discriminators are
  \<open>std::holds_alternative\<close> and the selectors are \<open>std::get\<close>.
\<close>

datatype "value" =
    is_Null: Null
  | is_Integer: Integer (get_Integer: int64)
  | is_Float: Float (get_Float: double)
  | is_Text: Text (get_Text: string)
  | is_Boolean: Boolean (get_Boolean: bool)

type_synonym row = "value list"

fun index :: "value \<Rightarrow> nat" where
  "index Null = 0"
| "index (Integer i) = 1"
| "index (Float d) = 2"
| "index (Text s) = 3"
| "index (Boolean b) = 4"

definition value_to_string :: "value \<Rightarrow> string" where
  "value_to_string v =
     (if is_Null v then ''NULL''
      else if is_Integer v then to_string (get_Integer v)
      else if is_Float v then fixed2 (get_Float v)
      else if is_Text v then get_Text v
      else if is_Boolean v then (if get_Boolean v then ''true'' else ''false'')
      else ''???'')"

text \<open>
  \<open>a == b\<close> on two variants with the same index compares the payloads with their own
  \<open>==\<close>.
\<close>

fun variant_eq :: "value \<Rightarrow> value \<Rightarrow> bool" where
  "variant_eq Null Null = True"
| "variant_eq (Integer x) (Integer y) = (x = y)"
| "variant_eq (Float x) (Float y) = double_eq x y"
| "variant_eq (Text s) (Text t) = (s = t)"
| "variant_eq (Boolean p) (Boolean q) = (p = q)"
| "variant_eq a b = False"

definition values_equal :: "value \<Rightarrow> value \<Rightarrow> bool" where
  "values_equal a b =
     (if is_Null a \<or> is_Null b then False
      else if index a \<noteq> index b then False
      else variant_eq a b)"


text \<open>
  The first copy inside \<open>src/repono.cpp\<close> (lines 106-147) differs in two places. Its
  test for two Floats reads \<open>holds_alternative<double>(a) && holds_alternative<double>(a)\<close>
  and then calls \<open>std::get<double>(b)\<close>, which throws when \<open>b\<close> holds no double; and
  in the mixed branch the left operand that is not an Integer is read with
  \<open>std::get<int64_t>(a)\<close>. \<open>std_get_int64\<close> and \<open>std_get_double\<close> are \<open>std::get\<close>
  where no test guards it.
\<close>

definition std_get_int64 :: "value \<Rightarrow> error + int64" where
  "std_get_int64 v = (case v of Integer i \<Rightarrow> Inr i | _ \<Rightarrow> Inl BadVariantAccess)"

definition std_get_double :: "value \<Rightarrow> error + double" where
  "std_get_double v = (case v of Float d \<Rightarrow> Inr d | _ \<Rightarrow> Inl BadVariantAccess)"

definition value_less_than_first :: "value \<Rightarrow> value \<Rightarrow> error + bool" where
  "value_less_than_first a b =
     (if is_Null a then Inr False
      else if is_Null b then Inr True
      else if is_Integer a \<and> is_Integer b then Inr (get_Integer a <s get_Integer b)
      else if is_Float a \<and> is_Float a then
        (case std_get_double b of
           Inl e \<Rightarrow> Inl e
         | Inr y \<Rightarrow> Inr (double_less (get_Float a) y))
      else if (is_Integer a \<or> is_Float a) \<and> (is_Integer b \<or> is_Float b) then
        (case (if is_Integer a then Inr (int64_to_double (get_Integer a))
               else (case std_get_int64 a of
                       Inl e \<Rightarrow> Inl e
                     | Inr x \<Rightarrow> Inr (int64_to_double x))) of
           Inl e \<Rightarrow> Inl e
         | Inr da \<Rightarrow>
             (case (if is_Integer b then Inr (int64_to_double (get_Integer b))
                    else std_get_double b) of
                Inl e \<Rightarrow> Inl e
              | Inr db \<Rightarrow> Inr (double_less da db)))
      else if is_Text a \<and> is_Text b then Inr (get_Text a < get_Text b)
      else if is_Boolean a \<and> is_Boolean b then Inr (\<not> get_Boolean a \<and> get_Boolean b)
      else Inr (index a < index b))"

definition is_null :: "value \<Rightarrow> bool" where
  "is_null v = is_Null v"

subsection \<open>Column definitions and schemas\<close>

datatype DataType = INTEGER | FLOAT | VARCHAR | BOOLEAN | TIMESTAMP

fun datatype_to_string :: "DataType \<Rightarrow> string" where
  "datatype_to_string INTEGER = ''INTEGER''"
| "datatype_to_string FLOAT = ''FLOAT''"
| "datatype_to_string VARCHAR = ''VARCHAR''"
| "datatype_to_string BOOLEAN = ''BOOLEAN''"
| "datatype_to_string TIMESTAMP = ''TIMESTAMP''"

record ColumnDef =
  name :: string
  type :: DataType
  is_primary_key :: bool
  is_nullable :: bool

text \<open>\<open>ColumnDef::validate\<close>: the empty string when the value fits the column.\<close>

definition validate :: "ColumnDef \<Rightarrow> value \<Rightarrow> string" where
  "validate c v =
     (if is_null v then
        (if \<not> is_nullable c then ''Column '' @ [CHR 0x27] @ name c @ [CHR 0x27] @ '' cannot be NULL''
         else [])
      else
        (let type_ok =
           (case type c of
              INTEGER \<Rightarrow> is_Integer v
            | FLOAT \<Rightarrow> is_Float v \<or> is_Integer v
            | VARCHAR \<Rightarrow> is_Text v
            | BOOLEAN \<Rightarrow> is_Boolean v
            | TIMESTAMP \<Rightarrow> is_Integer v)
         in if \<not> type_ok then
              ''Column '' @ [CHR 0x27] @ name c @ [CHR 0x27] @ '' expects '' @
              datatype_to_string (type c) @ '', got wrong type''
            else []))"

text \<open>
  \<open>class Schema\<close>: the ordered list \<open>columns_\<close> and the map \<open>column_indices_\<close> from
  a column's name to its index. \<open>add_column\<close> is \<open>void\<close> and changes the schema in
  place; the model returns the schema after the call.
\<close>

record Schema =
  columns :: "ColumnDef list"
  column_indices :: "string \<rightharpoonup> nat"

definition empty_schema :: Schema where
  "empty_schema = \<lparr>columns = [], column_indices = Map.empty\<rparr>"

definition add_column :: "Schema \<Rightarrow> ColumnDef \<Rightarrow> Schema" where
  "add_column s column =
     s\<lparr>column_indices := (column_indices s)(name column \<mapsto> length (columns s)),
       columns := columns s @ [column]\<rparr>"

definition get_columns :: "Schema \<Rightarrow> ColumnDef list" where
  "get_columns s = columns s"

definition num_columns :: "Schema \<Rightarrow> nat" where
  "num_columns s = length (columns s)"

definition get_column_index :: "Schema \<Rightarrow> string \<Rightarrow> nat option" where
  "get_column_index s nm = column_indices s nm"

definition has_column :: "Schema \<Rightarrow> string \<Rightarrow> bool" where
  "has_column s nm = (column_indices s nm \<noteq> None)"

text \<open>
  \<open>Schema::validate_row\<close>: the length check, then the loop over the cells from index
  \<open>i\<close>, which returns at the first cell whose validation gives an error.
\<close>

function validate_cells :: "Schema \<Rightarrow> row \<Rightarrow> nat \<Rightarrow> string" where
  "validate_cells s r i =
     (if i < length r then
        (let error = validate (columns s ! i) (r ! i)
         in if error \<noteq> [] then error else validate_cells s r (i + 1))
      else [])"
  by pat_completeness auto
termination
  by (relation "measure (\<lambda>(s, r, i). length r - i)") auto

declare validate_cells.simps [simp del]

definition validate_row :: "Schema \<Rightarrow> row \<Rightarrow> string" where
  "validate_row s r =
     (if length r \<noteq> length (columns s) then
        ''Expected '' @ show_nat (length (columns s)) @ '' columns, got '' @ show_nat (length r)
      else validate_cells s r 0)"

subsection \<open>Commits and their hash\<close>

text \<open>
  \<open>struct Commit\<close>. An \<open>std::unordered_map\<close> is the list of its entries in the
  order its iteration visits them, which the standard leaves open; its keys are distinct.
  \<open>at\<close> looks a key up and throws \<open>std::out_of_range\<close> when it is absent.
\<close>

record Commit =
  hash :: string
  parent_hash :: string
  message :: string
  timestamp :: int64
  table_data :: "(string \<times> row list) list"
  table_schemas :: "(string \<times> Schema) list"

definition is_root :: "Commit \<Rightarrow> bool" where
  "is_root c = (parent_hash c = [])"

text \<open>
  \<open>compute_hash\<close>: OpenSSL's \<open>SHA256\<close> is not part of the repository, so it is a
  parameter: \<open>sha data i\<close> is the byte \<open>hash[i]\<close> that \<open>SHA256\<close> writes for the
  input \<open>data\<close>. The loop prints the 32 bytes as two lowercase hexadecimal digits each.
\<close>

type_synonym sha256 = "string \<Rightarrow> nat \<Rightarrow> 8 word"

definition hex2 :: "8 word \<Rightarrow> string" where
  "hex2 b = [''0123456789abcdef'' ! (unat b div 16), ''0123456789abcdef'' ! (unat b mod 16)]"

definition compute_hash :: "sha256 \<Rightarrow> string \<Rightarrow> string" where
  "compute_hash sha data = concat (map (\<lambda>i. hex2 (sha data i)) [0..<32])"

text \<open>
  \<open>compute_commit_hash\<close>: the three header lines, the table names collected from
  \<open>table_data\<close> and sorted, then for each name its \<open>table:\<close> line and one \<open>row:\<close>
  line per row, the cells separated by commas (the inner loop counts the cells with \<open>i\<close>).
\<close>

fun write_cells :: "nat \<Rightarrow> row \<Rightarrow> string" where
  "write_cells i [] = []"
| "write_cells i (v # vs) = (if 0 < i then '','' else []) @ value_to_string v @ write_cells (i + 1) vs"

fun write_rows :: "row list \<Rightarrow> string" where
  "write_rows [] = []"
| "write_rows (r # rs) = ''row:'' @ write_cells 0 r @ [CHR 0x0A] @ write_rows rs"

fun write_tables :: "(string \<times> row list) list \<Rightarrow> string list \<Rightarrow> error + string" where
  "write_tables td [] = Inr []"
| "write_tables td (nm # names) =
     (case map_of td nm of
        None \<Rightarrow> Inl OutOfRange
      | Some rows \<Rightarrow>
          (case write_tables td names of
             Inl e \<Rightarrow> Inl e
           | Inr rest \<Rightarrow> Inr (''table:'' @ nm @ [CHR 0x0A] @ write_rows rows @ rest)))"

definition write_header :: "Commit \<Rightarrow> string" where
  "write_header c =
     ''parent:'' @ parent_hash c @ [CHR 0x0A] @
     ''message:'' @ message c @ [CHR 0x0A] @
     ''timestamp:'' @ to_string (timestamp c) @ [CHR 0x0A]"

definition compute_commit_hash :: "sha256 \<Rightarrow> Commit \<Rightarrow> error + string" where
  "compute_commit_hash sha c =
     (let table_names = sort (map fst (table_data c))
      in case write_tables (table_data c) table_names of
           Inl e \<Rightarrow> Inl e
         | Inr body \<Rightarrow> Inr (compute_hash sha (write_header c @ body)))"

definition validate_commit :: "sha256 \<Rightarrow> Commit \<Rightarrow> error + bool" where
  "validate_commit sha c =
     (case compute_commit_hash sha c of
        Inl e \<Rightarrow> Inl e
      | Inr computed \<Rightarrow> Inr (computed = hash c))"

subsection \<open>The canonical serialization, in the specification's words\<close>

text \<open>
  The specification describes the hashed bytes as \<open>canonicalize(commit)\<close>: the lines
  \<open>parent:\<close>, \<open>message:\<close> and \<open>timestamp:\<close>, then for every table name in ascending
  order a \<open>table:\<close> line and one \<open>row:\<close> line per row in stored order, the cells
  displayed by \<open>value_to_string\<close> and separated by commas. This definition follows those
  words; it is compared with \<open>compute_commit_hash\<close> below.
\<close>

fun join_commas :: "string list \<Rightarrow> string" where
  "join_commas [] = []"
| "join_commas [x] = x"
| "join_commas (x # y # ys) = x @ '','' @ join_commas (y # ys)"

definition row_line :: "row \<Rightarrow> string" where
  "row_line r = ''row:'' @ join_commas (map value_to_string r) @ [CHR 0x0A]"

definition table_block :: "(string \<rightharpoonup> row list) \<Rightarrow> string \<Rightarrow> string" where
  "table_block m nm =
     ''table:'' @ nm @ [CHR 0x0A] @
     concat (map row_line (case m nm of None \<Rightarrow> [] | Some rows \<Rightarrow> rows))"

definition canonicalize :: "Commit \<Rightarrow> string" where
  "canonicalize c =
     ''parent:'' @ parent_hash c @ [CHR 0x0A] @
     ''message:'' @ message c @ [CHR 0x0A] @
     ''timestamp:'' @ to_string (timestamp c) @ [CHR 0x0A] @
     concat (map (table_block (map_of (table_data c)))
               (sorted_list_of_set (set (map fst (table_data c)))))"

subsection \<open>Diffs\<close>

text \<open>
  The result types \<open>RowDiff\<close>, \<open>TableDiff\<close> and \<open>CommitDiff\<close> are the structs of the
  source (\<open>diff_type\<close> is the field \<open>type\<close> of \<open>RowDiff\<close>).
\<close>

datatype RowDiffType = ADDED | DELETED | MODIFIED

record RowDiff =
  diff_type :: RowDiffType
  old_row :: row
  new_row :: row

record TableDiff =
  table_name :: string
  row_diffs :: "RowDiff list"
  schema_changed :: bool

record CommitDiff =
  from_hash :: string
  to_hash :: string
  table_diffs :: "TableDiff list"
  tables_added :: "string list"
  tables_dropped :: "string list"

text \<open>
  Modelled from the spec: the function \<open>diff\<close> and its helpers are not in the source
  files, which only declare the three result structs. The definitions below follow
  section 4.5 of the specification, and section 4.2 for the equality of schemas.

  Where the specification is silent the model decides as follows. The tables of a
  commit are the keys of \<open>table_data\<close>. The key column of a table is the first column
  of its schema in \<open>from\<close> with \<open>is_primary_key\<close>; a table without a schema has no key
  column. A row too short to have a key cell has the key Null, which matches nothing.
  A row of \<open>from\<close> is matched with the first row of \<open>to\<close> whose key equals its own.
  Two rows differ when their lengths differ or some pair of cells is not
  \<open>values_equal\<close>. Without a key column, rows are compared as whole values, and of
  several equal rows the first ones are taken as matched.
\<close>

definition schema_equal :: "Schema \<Rightarrow> Schema \<Rightarrow> bool" where
  "schema_equal s1 s2 =
     (length (columns s1) = length (columns s2) \<and>
      list_all2
        (\<lambda>a b. name a = name b \<and> type a = type b \<and>
               is_nullable a = is_nullable b \<and> is_primary_key a = is_primary_key b)
        (columns s1) (columns s2))"

definition schemas_equal :: "Schema option \<Rightarrow> Schema option \<Rightarrow> bool" where
  "schemas_equal a b =
     (case (a, b) of
        (Some s1, Some s2) \<Rightarrow> schema_equal s1 s2
      | (None, None) \<Rightarrow> True
      | _ \<Rightarrow> False)"

definition primary_key_index :: "Schema \<Rightarrow> nat option" where
  "primary_key_index s =
     (case filter (\<lambda>i. is_primary_key (columns s ! i)) [0..<length (columns s)] of
        [] \<Rightarrow> None
      | i # rest \<Rightarrow> Some i)"

definition key_cell :: "nat \<Rightarrow> row \<Rightarrow> value" where
  "key_cell k r = (if k < length r then r ! k else Null)"

definition rows_equal :: "row \<Rightarrow> row \<Rightarrow> bool" where
  "rows_equal r r' = (length r = length r' \<and> list_all2 values_equal r r')"

definition keyed_row_diffs :: "nat \<Rightarrow> row list \<Rightarrow> row list \<Rightarrow> RowDiff list" where
  "keyed_row_diffs k from_rows to_rows =
     concat (map (\<lambda>r.
        case find (\<lambda>r'. values_equal (key_cell k r) (key_cell k r')) to_rows of
          None \<Rightarrow> [\<lparr>diff_type = DELETED, old_row = r, new_row = []\<rparr>]
        | Some r' \<Rightarrow>
            if rows_equal r r' then []
            else [\<lparr>diff_type = MODIFIED, old_row = r, new_row = r'\<rparr>]) from_rows)
     @ concat (map (\<lambda>r'.
        if list_ex (\<lambda>r. values_equal (key_cell k r) (key_cell k r')) from_rows then []
        else [\<lparr>diff_type = ADDED, old_row = [], new_row = r'\<rparr>]) to_rows)"

definition unkeyed_row_diffs :: "row list \<Rightarrow> row list \<Rightarrow> RowDiff list" where
  "unkeyed_row_diffs from_rows to_rows =
     map (\<lambda>r. \<lparr>diff_type = DELETED, old_row = r, new_row = []\<rparr>) (fold remove1 to_rows from_rows)
     @ map (\<lambda>r'. \<lparr>diff_type = ADDED, old_row = [], new_row = r'\<rparr>) (fold remove1 from_rows to_rows)"

definition table_key :: "Commit \<Rightarrow> string \<Rightarrow> nat option" where
  "table_key c nm =
     (case map_of (table_schemas c) nm of
        None \<Rightarrow> None
      | Some s \<Rightarrow> primary_key_index s)"

definition diff_table :: "Commit \<Rightarrow> Commit \<Rightarrow> string \<Rightarrow> row list \<Rightarrow> row list \<Rightarrow> TableDiff" where
  "diff_table from to nm from_rows to_rows =
     \<lparr>table_name = nm,
      row_diffs =
        (case table_key from nm of
           Some k \<Rightarrow> keyed_row_diffs k from_rows to_rows
         | None \<Rightarrow> unkeyed_row_diffs from_rows to_rows),
      schema_changed =
        (\<not> schemas_equal (map_of (table_schemas from) nm) (map_of (table_schemas to) nm))\<rparr>"

definition diff :: "Commit \<Rightarrow> Commit \<Rightarrow> CommitDiff" where
  "diff from to =
     \<lparr>from_hash = hash from,
      to_hash = hash to,
      table_diffs =
        concat (map (\<lambda>(nm, from_rows).
           case map_of (table_data to) nm of
             None \<Rightarrow> []
           | Some to_rows \<Rightarrow> [diff_table from to nm from_rows to_rows]) (table_data from)),
      tables_added =
        filter (\<lambda>nm. map_of (table_data from) nm = None) (map fst (table_data to)),
      tables_dropped =
        filter (\<lambda>nm. map_of (table_data to) nm = None) (map fst (table_data from))\<rparr>"

section \<open>Properties\<close>

subsection \<open>The conversion from \<open>int64_t\<close> to \<open>double\<close> is monotone\<close>



















subsection \<open>The order of doubles\<close>







subsection \<open>The order of values\<close>













text \<open>
  The first copy does not return on a Float left operand with an Integer, Text or
  Boolean right operand: its test for two Floats looks at the left operand twice.
\<close>

lemma value_less_than_first_throws_example:
  "value_less_than_first (Float (DFin (5 / 2))) (Integer 1) = Inl BadVariantAccess"
  "value_less_than_first (Float (DFin (5 / 2))) (Text ''a'') = Inl BadVariantAccess"
  by (simp_all add: value_less_than_first_def std_get_double_def)

subsection \<open>Equality and display of values\<close>

lemma double_eq_structural:
  "\<not> is_NaN d \<Longrightarrow> d \<noteq> DNegZero \<Longrightarrow> e \<noteq> DNegZero \<Longrightarrow> double_eq d e \<longleftrightarrow> d = e"
  by (cases d; cases e) auto

text \<open>
  C7, as amended: \<open>values_equal\<close> is false whenever either operand is Null (also for
  two Nulls) and whenever the kinds differ; for two values of the same kind it is the
  \<open>==\<close> of the payloads, which is structural equality for Integer, Text and Boolean and
  the equality of doubles for Float: a NaN equals no Float, not even itself, the two
  zeros are equal, and everywhere else it is structural equality.
\<close>

theorem values_equal_payload_eq:
  "\<not> values_equal Null b
   \<and> \<not> values_equal a Null
   \<and> (index a \<noteq> index b \<longrightarrow> \<not> values_equal a b)
   \<and> (values_equal (Integer x) (Integer y) \<longleftrightarrow> x = y)
   \<and> (values_equal (Text s) (Text t) \<longleftrightarrow> s = t)
   \<and> (values_equal (Boolean p) (Boolean q) \<longleftrightarrow> p = q)
   \<and> (values_equal (Float d) (Float e) \<longleftrightarrow> double_eq d e)
   \<and> (is_NaN d \<or> is_NaN e \<longrightarrow> \<not> values_equal (Float d) (Float e))
   \<and> (\<not> is_NaN d \<and> d \<noteq> DNegZero \<and> e \<noteq> DNegZero
      \<longrightarrow> (values_equal (Float d) (Float e) \<longleftrightarrow> d = e))"
proof -
  have "is_NaN d \<or> is_NaN e \<longrightarrow> \<not> double_eq d e"
    by (cases d; cases e) auto
  moreover have "\<not> is_NaN d \<and> d \<noteq> DNegZero \<and> e \<noteq> DNegZero \<longrightarrow> (double_eq d e \<longleftrightarrow> d = e)"
    using double_eq_structural by blast
  moreover have "\<not> values_equal a Null"
    by (simp add: values_equal_def)
  ultimately show ?thesis
    by (simp add: values_equal_def)
qed

theorem values_equal_payload_eq_witness:
  "\<not> values_equal (Integer 1) (Text ''1'')
   \<and> values_equal (Float (DFin (5 / 2))) (Float (DFin (5 / 2)))
   \<and> \<not> values_equal (Float (DNaN False)) (Float (DFin (5 / 2)))
   \<and> \<not> values_equal Null Null"
  using values_equal_payload_eq
    [where a = "Integer 1" and b = "Text ''1''" and d = "DFin (5 / 2)" and e = "DFin (5 / 2)"]
    values_equal_payload_eq
    [where a = Null and b = Null and d = "DNaN False" and e = "DFin (5 / 2)"]
  by simp

text \<open>
  The claim as stated fails for Float payloads: a NaN is structurally equal to itself
  and \<open>values_equal\<close> is false, and negative and positive zero are structurally
  different and \<open>values_equal\<close> is true.
\<close>

theorem values_equal_structural_counterexample:
  "values_equal (Float (DNaN False)) (Float (DNaN False)) \<noteq> (DNaN False = DNaN False)
   \<and> values_equal (Float DNegZero) (Float (DFin 0)) \<noteq> (DNegZero = DFin 0)"
  by (simp add: values_equal_def)

lemma digit_char:
  "d < 10 \<Longrightarrow> (of_char (''0123456789'' ! d) :: nat) = 48 + d"
  "d < 10 \<Longrightarrow> ''0123456789'' ! d \<in> set ''0123456789''"
proof -
  assume "d < 10"
  then have "d = 0 \<or> d = 1 \<or> d = 2 \<or> d = 3 \<or> d = 4 \<or> d = 5 \<or> d = 6 \<or> d = 7 \<or> d = 8 \<or> d = 9"
    by arith
  then show "(of_char (''0123456789'' ! d) :: nat) = 48 + d"
    and "''0123456789'' ! d \<in> set ''0123456789''"
    by auto
qed

lemma show_nat_value:
  "foldl (\<lambda>acc ch. 10 * acc + (of_char ch - 48)) 0 (show_nat n) = n"
proof (induction n rule: show_nat.induct)
  case (1 n)
  show ?case
  proof (cases "n < 10")
    case True
    then show ?thesis by (simp add: show_nat.simps [of n] digit_char)
  next
    case False
    have "n mod 10 < 10" by simp
    with 1 False show ?thesis
      by (simp add: show_nat.simps [of n] digit_char)
  qed
qed

lemma show_nat_digits: "list_all (\<lambda>ch. ch \<in> set ''0123456789'') (show_nat n)"
proof (induction n rule: show_nat.induct)
  case (1 n)
  have "n mod 10 < 10" by simp
  then have "''0123456789'' ! (n mod 10) \<in> set ''0123456789''" by (rule digit_char)
  moreover have "n < 10 \<Longrightarrow> ''0123456789'' ! n \<in> set ''0123456789''" by (rule digit_char)
  ultimately show ?case
    using 1 by (cases "n < 10") (simp_all add: show_nat.simps [of n] del: set_simps)
qed

lemma show_nat_nonempty: "show_nat n \<noteq> []"
  by (simp add: show_nat.simps [of n])

lemma show_nat_no_leading_zero: "0 < n \<Longrightarrow> hd (show_nat n) \<noteq> CHR ''0''"
proof (induction n rule: show_nat.induct)
  case (1 n)
  show ?case
  proof (cases "n < 10")
    case True
    have v: "(of_char (''0123456789'' ! n) :: nat) = 48 + n"
      using True by (rule digit_char)
    have "''0123456789'' ! n \<noteq> CHR ''0''"
    proof
      assume "''0123456789'' ! n = CHR ''0''"
      then have "(of_char (''0123456789'' ! n) :: nat) = of_char CHR ''0''"
        by (rule arg_cong)
      with v have "48 + n = (48 :: nat)" by simp
      with 1(2) show False by simp
    qed
    with True show ?thesis by (simp add: show_nat.simps [of n])
  next
    case False
    then have "0 < n div 10" by simp
    with 1(1) False have "hd (show_nat (n div 10)) \<noteq> CHR ''0''" by simp
    with False show ?thesis
      by (simp add: show_nat.simps [of n] show_nat_nonempty)
  qed
qed

lemma round_half_even_nearest:
  assumes "0 \<le> q"
  shows "2 * \<bar>of_nat (round_half_even q) - q\<bar> \<le> 1"
proof -
  have f: "of_nat (nat \<lfloor>q\<rfloor>) = (of_int \<lfloor>q\<rfloor> :: rat)"
    using assms by simp
  have lo: "of_int \<lfloor>q\<rfloor> \<le> q" and hi: "q < of_int \<lfloor>q\<rfloor> + 1"
    by linarith+
  show ?thesis
    using lo hi by (auto simp add: round_half_even_def Let_def f)
qed

lemma round_half_even_eq:
  assumes "of_nat f \<le> q" "q < of_nat f + 1"
  shows "round_half_even q =
           (if 1 / 2 < q - of_nat f \<or> (q - of_nat f = 1 / 2 \<and> odd f) then f + 1 else f)"
proof -
  have "\<lfloor>q\<rfloor> = int f"
    using assms by (intro floor_unique) simp_all
  then show ?thesis
    by (simp add: round_half_even_def)
qed

lemma fixed2_digits_examples:
  "fixed2_digits (5 / 2) = ''2.50''"
  "fixed2_digits 19 = ''19.00''"
  "fixed2_digits (1 / 8) = ''0.12''"
  "fixed2_digits (3 / 8) = ''0.38''"
  "fixed2_digits (1 / 1024) = ''0.00''"
  using round_half_even_eq [of 250 "5 / 2 * 100"] round_half_even_eq [of 1900 "19 * 100"]
    round_half_even_eq [of 12 "1 / 8 * 100"] round_half_even_eq [of 37 "3 / 8 * 100"]
    round_half_even_eq [of 0 "1 / 1024 * 100"]
  by (simp_all add: fixed2_digits_def show_nat.simps)

lemma value_to_string_float_examples:
  "value_to_string (Float (DFin (5 / 2))) = ''2.50''"
  "value_to_string (Float (DFin 19)) = ''19.00''"
  "value_to_string (Float (DFin (1 / 8))) = ''0.12''"
  "value_to_string (Float (DFin (3 / 8))) = ''0.38''"
  "value_to_string (Float (DFin (- (3 / 8)))) = ''-0.38''"
  "value_to_string (Float (DFin (- (1 / 1024)))) = ''-0.00''"
  "value_to_string (Float DNegZero) = ''-0.00''"
  "value_to_string (Float DPosInf) = ''inf''"
  "value_to_string (Float (DNaN False)) = ''nan''"
  by (simp_all add: value_to_string_def fixed2_digits_examples)

lemma value_to_string_integer_examples:
  "value_to_string (Integer 19) = ''19''"
  "value_to_string (Integer 0) = ''0''"
  "value_to_string (Integer (- 1703529600)) = ''-1703529600''"
  by (simp_all add: value_to_string_def to_string_def show_nat.simps)

lemma round_half_even_tie: "q = of_nat f + 1 / 2 \<Longrightarrow> even (round_half_even q)"
  using round_half_even_eq [of f q] by simp

lemma show_nat_digit: "n < 10 \<Longrightarrow> show_nat n = [''0123456789'' ! n]"
  by (simp add: show_nat.simps [of n])

text \<open>
  C10: for every value, one of the five tests of \<open>value_to_string\<close> holds, so the
  final \<open>"???"\<close> branch is not reached, and the result is the rendering of the value's
  kind. Null gives \<open>NULL\<close>, a Text itself, a Boolean \<open>true\<close> or \<open>false\<close>. An Integer
  gives its decimal text: a minus sign for a negative number, then the digits of the
  magnitude, which are decimal digits without a leading zero whose value is the
  magnitude. A finite Float gives the fixed two-decimal text: the sign, then the
  hundredths nearest to the magnitude (ties to the even one), written as integer part,
  point and two digits; the other Floats give \<open>-0.00\<close>, \<open>inf\<close>, \<open>-inf\<close>, \<open>nan\<close> or
  \<open>-nan\<close>.
\<close>

theorem value_to_string_total:
  "(is_Null v \<or> is_Integer v \<or> is_Float v \<or> is_Text v \<or> is_Boolean v)
   \<and> value_to_string v =
       (case v of
          Null \<Rightarrow> ''NULL''
        | Integer i \<Rightarrow> to_string i
        | Float d \<Rightarrow> fixed2 d
        | Text s \<Rightarrow> s
        | Boolean b \<Rightarrow> if b then ''true'' else ''false'')
   \<and> value_to_string Null = ''NULL''
   \<and> value_to_string (Text s) = s
   \<and> value_to_string (Boolean True) = ''true''
   \<and> value_to_string (Boolean False) = ''false''
   \<and> value_to_string (Integer i) = (if sint i < 0 then ''-'' else []) @ show_nat (nat \<bar>sint i\<bar>)
   \<and> foldl (\<lambda>acc ch. 10 * acc + (of_char ch - 48)) 0 (show_nat n) = n
   \<and> list_all (\<lambda>ch. ch \<in> set ''0123456789'') (show_nat n)
   \<and> show_nat n \<noteq> []
   \<and> (0 < n \<longrightarrow> hd (show_nat n) \<noteq> CHR ''0'')
   \<and> value_to_string (Integer 19) = ''19''
   \<and> value_to_string (Integer 0) = ''0''
   \<and> value_to_string (Integer (- 1703529600)) = ''-1703529600''
   \<and> value_to_string (Float (DFin x)) =
       (if x < 0 then ''-'' else []) @
       show_nat (round_half_even (\<bar>x\<bar> * 100) div 100) @ ''.'' @
       show_nat (round_half_even (\<bar>x\<bar> * 100) mod 100 div 10) @
       show_nat (round_half_even (\<bar>x\<bar> * 100) mod 10)
   \<and> (0 \<le> q \<longrightarrow> 2 * \<bar>of_nat (round_half_even q) - q\<bar> \<le> 1)
   \<and> (q = of_nat f + 1 / 2 \<longrightarrow> even (round_half_even q))
   \<and> value_to_string (Float (DFin (5 / 2))) = ''2.50''
   \<and> value_to_string (Float (DFin 19)) = ''19.00''
   \<and> value_to_string (Float (DFin (1 / 8))) = ''0.12''
   \<and> value_to_string (Float (DFin (3 / 8))) = ''0.38''
   \<and> value_to_string (Float (DFin (- (3 / 8)))) = ''-0.38''
   \<and> value_to_string (Float (DFin (- (1 / 1024)))) = ''-0.00''
   \<and> value_to_string (Float DNegZero) = ''-0.00''
   \<and> value_to_string (Float DPosInf) = ''inf''
   \<and> value_to_string (Float DNegInf) = ''-inf''
   \<and> value_to_string (Float (DNaN False)) = ''nan''
   \<and> value_to_string (Float (DNaN True)) = ''-nan''"
proof -
  have guards: "is_Null v \<or> is_Integer v \<or> is_Float v \<or> is_Text v \<or> is_Boolean v"
    by (cases v) simp_all
  have kinds: "value_to_string v =
       (case v of
          Null \<Rightarrow> ''NULL''
        | Integer i \<Rightarrow> to_string i
        | Float d \<Rightarrow> fixed2 d
        | Text s \<Rightarrow> s
        | Boolean b \<Rightarrow> if b then ''true'' else ''false'')"
    by (cases v) (simp_all add: value_to_string_def)
  have int: "value_to_string (Integer i) =
      (if sint i < 0 then ''-'' else []) @ show_nat (nat \<bar>sint i\<bar>)"
    by (simp add: value_to_string_def to_string_def)
  have float: "value_to_string (Float (DFin x)) =
       (if x < 0 then ''-'' else []) @
       show_nat (round_half_even (\<bar>x\<bar> * 100) div 100) @ ''.'' @
       show_nat (round_half_even (\<bar>x\<bar> * 100) mod 100 div 10) @
       show_nat (round_half_even (\<bar>x\<bar> * 100) mod 10)"
    by (simp add: value_to_string_def fixed2_digits_def Let_def show_nat_digit)
  have others: "value_to_string Null = ''NULL''" "value_to_string (Text s) = s"
    "value_to_string (Boolean True) = ''true''" "value_to_string (Boolean False) = ''false''"
    "value_to_string (Float DNegInf) = ''-inf''" "value_to_string (Float (DNaN True)) = ''-nan''"
    by (simp_all add: value_to_string_def)
  have near: "0 \<le> q \<longrightarrow> 2 * \<bar>of_nat (round_half_even q) - q\<bar> \<le> 1"
    using round_half_even_nearest by blast
  have tie: "q = of_nat f + 1 / 2 \<longrightarrow> even (round_half_even q)"
    using round_half_even_tie by blast
  have lead: "0 < n \<longrightarrow> hd (show_nat n) \<noteq> CHR ''0''"
    using show_nat_no_leading_zero by blast
  show ?thesis
    by (intro conjI guards kinds int float others near tie lead show_nat_value show_nat_digits
        show_nat_nonempty value_to_string_integer_examples value_to_string_float_examples)
qed

theorem value_to_string_total_witness:
  "hd (show_nat 19) \<noteq> CHR ''0''
   \<and> 2 * \<bar>of_nat (round_half_even (25 / 2)) - 25 / 2\<bar> \<le> (1 :: rat)
   \<and> even (round_half_even (25 / 2))
   \<and> value_to_string (Float (DFin (1 / 8))) = ''0.12''
   \<and> value_to_string (Integer 19) = ''19''"
  using value_to_string_total
    [where n = 19 and q = "25 / 2" and f = 12 and v = Null and s = "[]" and i = 0 and x = 0]
  by simp

lemma value_to_string_simps [simp]:
  "value_to_string Null = ''NULL''"
  "value_to_string (Integer i) = to_string i"
  "value_to_string (Float d) = fixed2 d"
  "value_to_string (Text s) = s"
  "value_to_string (Boolean b) = (if b then ''true'' else ''false'')"
  by (simp_all add: value_to_string_def)

lemma to_string_small: "to_string 1 = ''1''" "to_string 2 = ''2''"
  by (simp_all add: to_string_def show_nat.simps)

subsection \<open>Schemas\<close>

text \<open>
  C1, as amended: \<open>add_column\<close> has no error result and no test for an existing name.
  For every schema and column it appends the column to the ordered list and maps the
  column's name to the index of the appended entry. When the schema already has a
  column of that name, its mapping is overwritten and the list holds both entries.
\<close>

theorem add_column_appends:
  "columns (add_column s c) = columns s @ [c]
   \<and> column_indices (add_column s c) = (column_indices s)(name c \<mapsto> num_columns s)
   \<and> get_column_index (add_column s c) (name c) = Some (num_columns s)
   \<and> num_columns (add_column s c) = num_columns s + 1
   \<and> add_column s c \<noteq> s
   \<and> (c' \<in> set (columns s) \<and> name c' = name c
      \<longrightarrow> c' \<in> set (columns (add_column s c))
        \<and> \<not> distinct (map name (columns (add_column s c))))"
proof -
  have "length (columns (add_column s c)) \<noteq> length (columns s)"
    by (simp add: add_column_def)
  then have "add_column s c \<noteq> s"
    by auto
  moreover have "c' \<in> set (columns s) \<and> name c' = name c
      \<longrightarrow> c' \<in> set (columns (add_column s c))
        \<and> \<not> distinct (map name (columns (add_column s c)))"
  proof
    assume h: "c' \<in> set (columns s) \<and> name c' = name c"
    then have "name c \<in> name ` set (columns s)"
      by (metis imageI)
    with h show "c' \<in> set (columns (add_column s c))
        \<and> \<not> distinct (map name (columns (add_column s c)))"
      by (simp add: add_column_def)
  qed
  ultimately show ?thesis
    by (simp add: add_column_def num_columns_def get_column_index_def)
qed

theorem add_column_appends_witness:
  "map name (columns (add_column
      (add_column empty_schema
         \<lparr>name = ''id'', type = INTEGER, is_primary_key = True, is_nullable = False\<rparr>)
      \<lparr>name = ''id'', type = VARCHAR, is_primary_key = False, is_nullable = True\<rparr>))
     = [''id'', ''id'']
   \<and> \<not> distinct (map name (columns (add_column
      (add_column empty_schema
         \<lparr>name = ''id'', type = INTEGER, is_primary_key = True, is_nullable = False\<rparr>)
      \<lparr>name = ''id'', type = VARCHAR, is_primary_key = False, is_nullable = True\<rparr>)))"
  using add_column_appends
    [where s = "add_column empty_schema
         \<lparr>name = ''id'', type = INTEGER, is_primary_key = True, is_nullable = False\<rparr>"
       and c = "\<lparr>name = ''id'', type = VARCHAR, is_primary_key = False, is_nullable = True\<rparr>"
       and c' = "\<lparr>name = ''id'', type = INTEGER, is_primary_key = True, is_nullable = False\<rparr>"]
  by (simp add: add_column_def empty_schema_def)

text \<open>
  The claim as stated fails: adding a second column named \<open>id\<close> changes the schema,
  moves the index of \<open>id\<close> from 0 to 1 and leaves two entries named \<open>id\<close> in the list.
\<close>

theorem add_column_duplicate_counterexample:
  "has_column
     (add_column empty_schema
        \<lparr>name = ''id'', type = INTEGER, is_primary_key = True, is_nullable = False\<rparr>) ''id''
   \<and> add_column
        (add_column empty_schema
           \<lparr>name = ''id'', type = INTEGER, is_primary_key = True, is_nullable = False\<rparr>)
        \<lparr>name = ''id'', type = VARCHAR, is_primary_key = False, is_nullable = True\<rparr>
      \<noteq> add_column empty_schema
           \<lparr>name = ''id'', type = INTEGER, is_primary_key = True, is_nullable = False\<rparr>
   \<and> get_column_index
        (add_column empty_schema
           \<lparr>name = ''id'', type = INTEGER, is_primary_key = True, is_nullable = False\<rparr>) ''id''
      = Some 0
   \<and> get_column_index
        (add_column
           (add_column empty_schema
              \<lparr>name = ''id'', type = INTEGER, is_primary_key = True, is_nullable = False\<rparr>)
           \<lparr>name = ''id'', type = VARCHAR, is_primary_key = False, is_nullable = True\<rparr>) ''id''
      = Some 1
   \<and> map name (get_columns
        (add_column
           (add_column empty_schema
              \<lparr>name = ''id'', type = INTEGER, is_primary_key = True, is_nullable = False\<rparr>)
           \<lparr>name = ''id'', type = VARCHAR, is_primary_key = False, is_nullable = True\<rparr>))
      = [''id'', ''id'']"
  by (simp add: add_column_def empty_schema_def has_column_def get_column_index_def
      get_columns_def)

lemma validate_empty_iff:
  "validate c v = [] \<longleftrightarrow>
     (if is_Null v then is_nullable c
      else (case type c of
              INTEGER \<Rightarrow> is_Integer v
            | FLOAT \<Rightarrow> is_Float v \<or> is_Integer v
            | VARCHAR \<Rightarrow> is_Text v
            | BOOLEAN \<Rightarrow> is_Boolean v
            | TIMESTAMP \<Rightarrow> is_Integer v))"
  by (cases "type c") (simp_all add: validate_def is_null_def)

lemma validate_cells_empty_iff:
  "validate_cells s r i = [] \<longleftrightarrow>
     (\<forall>k. i \<le> k \<and> k < length r \<longrightarrow> validate (columns s ! k) (r ! k) = [])"
proof (induction s r i rule: validate_cells.induct)
  case (1 s r i)
  show ?case
  proof (cases "i < length r")
    case False
    then show ?thesis by (auto simp add: validate_cells.simps [of s r i])
  next
    case True
    show ?thesis
    proof (cases "validate (columns s ! i) (r ! i) = []")
      case False
      with True show ?thesis
        by (auto simp add: validate_cells.simps [of s r i] Let_def)
    next
      case here: True
      have "validate (columns s ! k) (r ! k) = []"
        if "i \<le> k" "k < length r"
          and rest: "\<forall>k. i + 1 \<le> k \<and> k < length r \<longrightarrow> validate (columns s ! k) (r ! k) = []"
        for k
      proof (cases "k = i")
        case True
        then show ?thesis using here by simp
      next
        case False
        then have "i + 1 \<le> k" using that(1) by simp
        then show ?thesis using rest that(2) by simp
      qed
      moreover have "i \<le> k" if "i + 1 \<le> k" for k
        using that by simp
      ultimately
      have "(\<forall>k. i \<le> k \<and> k < length r \<longrightarrow> validate (columns s ! k) (r ! k) = [])
            \<longleftrightarrow> (\<forall>k. i + 1 \<le> k \<and> k < length r \<longrightarrow> validate (columns s ! k) (r ! k) = [])"
        by blast
      with 1 True here show ?thesis
        by (simp add: validate_cells.simps [of s r i] Let_def)
    qed
  qed
qed

lemma validate_cells_first_error:
  "i \<le> j \<Longrightarrow> j < length r \<Longrightarrow> validate (columns s ! j) (r ! j) \<noteq> [] \<Longrightarrow>
   (\<forall>k. i \<le> k \<and> k < j \<longrightarrow> validate (columns s ! k) (r ! k) = []) \<Longrightarrow>
   validate_cells s r i = validate (columns s ! j) (r ! j)"
proof (induction s r i rule: validate_cells.induct)
  case (1 s r i)
  show ?case
  proof (cases "i = j")
    case True
    with 1(3,4) show ?thesis
      by (simp add: validate_cells.simps [of s r j] Let_def)
  next
    case False
    with 1(2) have lt: "i < j" by simp
    with 1(3) have inr: "i < length r" by simp
    from lt 1(5) have here: "validate (columns s ! i) (r ! i) = []" by simp
    have "validate_cells s r (i + 1) = validate (columns s ! j) (r ! j)"
      using 1(1) [OF inr refl] here lt 1(3,4,5) by simp
    with inr here show ?thesis
      by (simp add: validate_cells.simps [of s r i] Let_def)
  qed
qed

text \<open>
  C8: \<open>validate_row\<close> returns the empty string exactly when the row has as many cells
  as the schema has columns and \<open>validate\<close> accepts every cell for its column;
  \<open>validate\<close> accepts Null exactly for a nullable column and a non-Null value exactly
  when its kind fits the declared type, where FLOAT also takes an Integer and TIMESTAMP
  takes an Integer. A row of the wrong length gets the column-count error; otherwise
  the result is the error of the first cell, from the left, that \<open>validate\<close> rejects.
\<close>

theorem validate_row_fail_fast:
  "(validate_row s r = [] \<longleftrightarrow>
      length r = num_columns s
      \<and> (\<forall>i. i < length r \<longrightarrow> validate (get_columns s ! i) (r ! i) = []))
   \<and> (validate c v = [] \<longleftrightarrow>
        (if is_Null v then is_nullable c
         else (case type c of
                 INTEGER \<Rightarrow> is_Integer v
               | FLOAT \<Rightarrow> is_Float v \<or> is_Integer v
               | VARCHAR \<Rightarrow> is_Text v
               | BOOLEAN \<Rightarrow> is_Boolean v
               | TIMESTAMP \<Rightarrow> is_Integer v)))
   \<and> (length r \<noteq> num_columns s \<longrightarrow>
        validate_row s r =
          ''Expected '' @ show_nat (num_columns s) @ '' columns, got '' @ show_nat (length r))
   \<and> (length r = num_columns s \<and> j < length r
        \<and> validate (get_columns s ! j) (r ! j) \<noteq> []
        \<and> (\<forall>i. i < j \<longrightarrow> validate (get_columns s ! i) (r ! i) = [])
      \<longrightarrow> validate_row s r = validate (get_columns s ! j) (r ! j))"
proof -
  have "validate_row s r = [] \<longleftrightarrow>
      length r = num_columns s
      \<and> (\<forall>i. i < length r \<longrightarrow> validate (get_columns s ! i) (r ! i) = [])"
    by (simp add: validate_row_def num_columns_def get_columns_def validate_cells_empty_iff)
  moreover have "length r = num_columns s \<and> j < length r
        \<and> validate (get_columns s ! j) (r ! j) \<noteq> []
        \<and> (\<forall>i. i < j \<longrightarrow> validate (get_columns s ! i) (r ! i) = [])
      \<longrightarrow> validate_row s r = validate (get_columns s ! j) (r ! j)"
    using validate_cells_first_error [of 0 j r s]
    by (simp add: validate_row_def num_columns_def get_columns_def)
  moreover have "length r \<noteq> num_columns s \<longrightarrow>
        validate_row s r =
          ''Expected '' @ show_nat (num_columns s) @ '' columns, got '' @ show_nat (length r)"
    by (simp add: validate_row_def num_columns_def)
  ultimately show ?thesis
    using validate_empty_iff [of c v] by blast
qed

theorem validate_row_fail_fast_witness:
  "validate_row
     (add_column (add_column empty_schema
        \<lparr>name = ''id'', type = INTEGER, is_primary_key = True, is_nullable = False\<rparr>)
        \<lparr>name = ''age'', type = FLOAT, is_primary_key = False, is_nullable = True\<rparr>)
     [Integer 1, Integer 19] = []
   \<and> validate_row
     (add_column (add_column empty_schema
        \<lparr>name = ''id'', type = INTEGER, is_primary_key = True, is_nullable = False\<rparr>)
        \<lparr>name = ''age'', type = FLOAT, is_primary_key = False, is_nullable = True\<rparr>)
     [Integer 1] = ''Expected 2 columns, got 1''
   \<and> validate_row
     (add_column (add_column empty_schema
        \<lparr>name = ''id'', type = INTEGER, is_primary_key = True, is_nullable = False\<rparr>)
        \<lparr>name = ''age'', type = FLOAT, is_primary_key = False, is_nullable = True\<rparr>)
     [Null, Text ''x''] = ''Column '' @ [CHR 0x27] @ ''id'' @ [CHR 0x27] @ '' cannot be NULL''"
proof -
  let ?s = "add_column (add_column empty_schema
        \<lparr>name = ''id'', type = INTEGER, is_primary_key = True, is_nullable = False\<rparr>)
        \<lparr>name = ''age'', type = FLOAT, is_primary_key = False, is_nullable = True\<rparr>"
  have cols: "get_columns ?s =
      [\<lparr>name = ''id'', type = INTEGER, is_primary_key = True, is_nullable = False\<rparr>,
       \<lparr>name = ''age'', type = FLOAT, is_primary_key = False, is_nullable = True\<rparr>]"
    and num: "num_columns ?s = 2"
    by (simp_all add: add_column_def empty_schema_def get_columns_def num_columns_def)
  have "validate_row ?s [Integer 1, Integer 19] = []"
    using validate_row_fail_fast [where s = ?s and r = "[Integer 1, Integer 19]"]
    by (simp add: cols num validate_def is_null_def less_Suc_eq)
  moreover have "validate_row ?s [Integer 1] = ''Expected 2 columns, got 1''"
    using validate_row_fail_fast [where s = ?s and r = "[Integer 1]"]
    by (simp add: num show_nat.simps)
  moreover have "validate_row ?s [Null, Text ''x''] =
      ''Column '' @ [CHR 0x27] @ ''id'' @ [CHR 0x27] @ '' cannot be NULL''"
    using validate_row_fail_fast [where s = ?s and r = "[Null, Text ''x'']" and j = 0]
    by (simp add: cols num validate_def is_null_def)
  ultimately show ?thesis by simp
qed

subsection \<open>The commit hash\<close>

lemma write_cells_join:
  "write_cells i r =
     (if r = [] then [] else (if 0 < i then '','' else []) @ join_commas (map value_to_string r))"
proof (induction r arbitrary: i)
  case Nil
  show ?case by simp
next
  case (Cons v vs)
  have "write_cells (i + 1) vs =
      (if vs = [] then [] else '','' @ join_commas (map value_to_string vs))"
    by (simp add: Cons.IH)
  then have "write_cells i (v # vs) =
      (if 0 < i then '','' else []) @ value_to_string v @
      (if vs = [] then [] else '','' @ join_commas (map value_to_string vs))"
    by simp
  then show ?case
    by (cases vs) simp_all
qed

lemma write_rows_lines: "write_rows rows = concat (map row_line rows)"
  by (induction rows) (simp_all add: row_line_def write_cells_join)

lemma write_tables_blocks:
  "set names \<subseteq> fst ` set td \<Longrightarrow>
   write_tables td names = Inr (concat (map (table_block (map_of td)) names))"
proof (induction names)
  case Nil
  show ?case by simp
next
  case (Cons nm names)
  from Cons.prems have "nm \<in> fst ` set td" by simp
  then obtain rows where "map_of td nm = Some rows"
    by (metis domD dom_map_of_conv_image_fst)
  with Cons show ?case
    by (simp add: table_block_def write_rows_lines)
qed

lemma compute_commit_hash_blocks:
  "compute_commit_hash sha c =
     Inr (compute_hash sha
       (write_header c @
        concat (map (table_block (map_of (table_data c))) (sort (map fst (table_data c))))))"
  by (simp add: compute_commit_hash_def write_tables_blocks)

lemma sort_distinct_keys: "distinct xs \<Longrightarrow> sort xs = sorted_list_of_set (set xs)"
  by (simp add: sorted_list_of_set_sort_remdups distinct_remdups_id)

lemma canonicalize_header:
  "canonicalize c =
     write_header c @
     concat (map (table_block (map_of (table_data c)))
               (sorted_list_of_set (set (map fst (table_data c)))))"
  by (simp add: canonicalize_def write_header_def)

lemma compute_commit_hash_canonicalize:
  "distinct (map fst (table_data c)) \<Longrightarrow>
   compute_commit_hash sha c = Inr (compute_hash sha (canonicalize c))"
  by (simp add: compute_commit_hash_blocks canonicalize_header sort_distinct_keys)

lemma canonicalize_cong:
  assumes "parent_hash c1 = parent_hash c2" "message c1 = message c2"
    and "timestamp c1 = timestamp c2"
    and "map_of (table_data c1) = map_of (table_data c2)"
  shows "canonicalize c1 = canonicalize c2"
proof -
  have "set (map fst (table_data c1)) = dom (map_of (table_data c1))"
    "set (map fst (table_data c2)) = dom (map_of (table_data c2))"
    by (simp_all add: dom_map_of_conv_image_fst)
  with assms show ?thesis
    by (simp add: canonicalize_def)
qed

lemma compute_commit_hash_cong:
  assumes "parent_hash c1 = parent_hash c2" "message c1 = message c2"
    and "timestamp c1 = timestamp c2"
    and "distinct (map fst (table_data c1))" "distinct (map fst (table_data c2))"
    and "map_of (table_data c1) = map_of (table_data c2)"
  shows "compute_commit_hash sha c1 = compute_commit_hash sha c2"
  using assms canonicalize_cong [of c1 c2]
  by (simp add: compute_commit_hash_canonicalize)

lemma to_string_examples:
  "to_string 0 = ''0''" "to_string 1703529600 = ''1703529600''"
  by (simp_all add: to_string_def show_nat.simps)

text \<open>
  C2: for a commit whose \<open>table_data\<close> has each table name once (as every
  \<open>unordered_map\<close> has), \<open>compute_commit_hash\<close> returns, without throwing, the digest
  of \<open>canonicalize\<close>: the \<open>parent:\<close>, \<open>message:\<close> and \<open>timestamp:\<close> lines, then for
  every table name in ascending order its \<open>table:\<close> line and one \<open>row:\<close> line per row
  in stored order, the cells displayed by \<open>value_to_string\<close>.
\<close>

theorem compute_commit_hash_is_digest_of_canonicalize:
  "distinct (map fst (table_data c)) \<Longrightarrow>
   compute_commit_hash sha c = Inr (compute_hash sha (canonicalize c))"
  by (rule compute_commit_hash_canonicalize)

theorem compute_commit_hash_is_digest_of_canonicalize_witness:
  "\<forall>sha. compute_commit_hash sha
     \<lparr>hash = [], parent_hash = [], message = ''Initial commit'', timestamp = 1703529600,
      table_data = [(''users'', [[Integer 1, Text ''Neel''], [Integer 2, Null]]), (''items'', [])],
      table_schemas = []\<rparr>
   = Inr (compute_hash sha
       (''parent:'' @ [CHR 0x0A] @ ''message:Initial commit'' @ [CHR 0x0A] @
        ''timestamp:1703529600'' @ [CHR 0x0A] @
        ''table:items'' @ [CHR 0x0A] @
        ''table:users'' @ [CHR 0x0A] @
        ''row:1,Neel'' @ [CHR 0x0A] @
        ''row:2,NULL'' @ [CHR 0x0A]))"
proof
  fix sha
  show "compute_commit_hash sha
     \<lparr>hash = [], parent_hash = [], message = ''Initial commit'', timestamp = 1703529600,
      table_data = [(''users'', [[Integer 1, Text ''Neel''], [Integer 2, Null]]), (''items'', [])],
      table_schemas = []\<rparr>
   = Inr (compute_hash sha
       (''parent:'' @ [CHR 0x0A] @ ''message:Initial commit'' @ [CHR 0x0A] @
        ''timestamp:1703529600'' @ [CHR 0x0A] @
        ''table:items'' @ [CHR 0x0A] @
        ''table:users'' @ [CHR 0x0A] @
        ''row:1,Neel'' @ [CHR 0x0A] @
        ''row:2,NULL'' @ [CHR 0x0A]))"
    using compute_commit_hash_is_digest_of_canonicalize
      [where sha = sha and c = "\<lparr>hash = [], parent_hash = [], message = ''Initial commit'',
         timestamp = 1703529600,
         table_data = [(''users'', [[Integer 1, Text ''Neel''], [Integer 2, Null]]), (''items'', [])],
         table_schemas = []\<rparr>"]
    by (simp add: canonicalize_def table_block_def row_line_def to_string_examples
        to_string_small)
qed

text \<open>
  C3: two commits that agree on \<open>parent_hash\<close>, \<open>message\<close>, \<open>timestamp\<close> and
  \<open>table_data\<close> (the same tables with the same rows) have the same canonical
  serialization and the same hash, whatever their \<open>table_schemas\<close> (and their stored
  \<open>hash\<close>) are; replacing the schemas of a commit changes neither.
\<close>

theorem compute_commit_hash_ignores_schemas:
  "(parent_hash c1 = parent_hash c2 \<and> message c1 = message c2
      \<and> timestamp c1 = timestamp c2 \<and> table_data c1 = table_data c2
    \<longrightarrow> compute_commit_hash sha c1 = compute_commit_hash sha c2
      \<and> canonicalize c1 = canonicalize c2)
   \<and> compute_commit_hash sha (c\<lparr>table_schemas := ts\<rparr>) = compute_commit_hash sha c
   \<and> canonicalize (c\<lparr>table_schemas := ts\<rparr>) = canonicalize c"
  by (simp add: compute_commit_hash_blocks write_header_def canonicalize_def)

theorem compute_commit_hash_ignores_schemas_witness:
  "\<forall>sha. compute_commit_hash sha
     \<lparr>hash = [], parent_hash = [], message = ''m'', timestamp = 0,
      table_data = [(''t'', [[Integer 1]])],
      table_schemas = [(''t'', add_column empty_schema
         \<lparr>name = ''id'', type = INTEGER, is_primary_key = True, is_nullable = False\<rparr>)]\<rparr>
   = compute_commit_hash sha
     \<lparr>hash = [], parent_hash = [], message = ''m'', timestamp = 0,
      table_data = [(''t'', [[Integer 1]])],
      table_schemas = [(''t'', add_column empty_schema
         \<lparr>name = ''id'', type = VARCHAR, is_primary_key = False, is_nullable = True\<rparr>)]\<rparr>"
proof
  fix sha
  show "compute_commit_hash sha
     \<lparr>hash = [], parent_hash = [], message = ''m'', timestamp = 0,
      table_data = [(''t'', [[Integer 1]])],
      table_schemas = [(''t'', add_column empty_schema
         \<lparr>name = ''id'', type = INTEGER, is_primary_key = True, is_nullable = False\<rparr>)]\<rparr>
   = compute_commit_hash sha
     \<lparr>hash = [], parent_hash = [], message = ''m'', timestamp = 0,
      table_data = [(''t'', [[Integer 1]])],
      table_schemas = [(''t'', add_column empty_schema
         \<lparr>name = ''id'', type = VARCHAR, is_primary_key = False, is_nullable = True\<rparr>)]\<rparr>"
    using compute_commit_hash_ignores_schemas
      [where sha = sha
         and ?c1.0 = "\<lparr>hash = [], parent_hash = [], message = ''m'', timestamp = 0,
            table_data = [(''t'', [[Integer 1]])],
            table_schemas = [(''t'', add_column empty_schema
              \<lparr>name = ''id'', type = INTEGER, is_primary_key = True, is_nullable = False\<rparr>)]\<rparr>"
         and ?c2.0 = "\<lparr>hash = [], parent_hash = [], message = ''m'', timestamp = 0,
            table_data = [(''t'', [[Integer 1]])],
            table_schemas = [(''t'', add_column empty_schema
              \<lparr>name = ''id'', type = VARCHAR, is_primary_key = False, is_nullable = True\<rparr>)]\<rparr>"]
    by simp
qed

lemma blocks_split:
  assumes "distinct names" "t \<in> set names"
  shows "\<exists>pre post. \<forall>rows'.
           concat (map (table_block (m(t \<mapsto> rows'))) names)
             = pre @ ''table:'' @ t @ [CHR 0x0A] @ concat (map row_line rows') @ post"
proof -
  from assms(2) obtain ys zs where names: "names = ys @ t # zs"
    by (meson split_list)
  with assms(1) have notin: "t \<notin> set ys" "t \<notin> set zs" by auto
  have same: "map (table_block (m(t \<mapsto> rows'))) xs = map (table_block m) xs"
    if "t \<notin> set xs" for xs rows'
    using that by (induction xs) (auto simp add: table_block_def)
  have "concat (map (table_block (m(t \<mapsto> rows'))) names)
      = concat (map (table_block m) ys) @ ''table:'' @ t @ [CHR 0x0A] @
        concat (map row_line rows') @ concat (map (table_block m) zs)" for rows'
    using notin by (simp add: names same) (simp add: table_block_def)
  then show ?thesis by blast
qed

lemma canonicalize_update_rows:
  assumes "distinct (map fst (table_data c))" "map_of (table_data c) t = Some rows"
  shows "canonicalize (c\<lparr>table_data := AList.update t rows' (table_data c)\<rparr>) = canonicalize c
         \<longleftrightarrow> concat (map row_line rows') = concat (map row_line rows)"
proof -
  let ?td = "table_data c"
  define names where "names = sorted_list_of_set (fst ` set ?td)"
  from assms(2) have key: "t \<in> fst ` set ?td"
    by (metis domI dom_map_of_conv_image_fst)
  then have "map fst (AList.update t rows' ?td) = map fst ?td"
    by (simp add: update_keys)
  then have keys: "fst ` set (AList.update t rows' ?td) = fst ` set ?td"
    by (metis set_map)
  have upd: "map_of (AList.update t rows' ?td) = (map_of ?td)(t \<mapsto> rows')"
    by (simp add: update_conv')
  have same: "(map_of ?td)(t \<mapsto> rows) = map_of ?td"
    using assms(2) by (simp add: map_upd_triv)
  from key have "distinct names" "t \<in> set names"
    by (simp_all add: names_def)
  then obtain pre post where split: "\<And>rs.
      concat (map (table_block ((map_of ?td)(t \<mapsto> rs))) names)
        = pre @ ''table:'' @ t @ [CHR 0x0A] @ concat (map row_line rs) @ post"
    using blocks_split [of names t "map_of ?td"] by blast
  have "canonicalize (c\<lparr>table_data := AList.update t rows' ?td\<rparr>)
      = write_header c @ concat (map (table_block ((map_of ?td)(t \<mapsto> rows'))) names)"
    by (simp add: canonicalize_header keys upd write_header_def flip: names_def)
  moreover have "canonicalize c
      = write_header c @ concat (map (table_block ((map_of ?td)(t \<mapsto> rows))) names)"
    by (simp add: canonicalize_header same flip: names_def)
  ultimately show ?thesis
    by (simp add: split)
qed

text \<open>
  C4, as amended: \<open>validate_commit\<close> returns, without throwing, whether
  \<open>compute_commit_hash\<close> of the commit equals its stored \<open>hash\<close>. It is true for a
  commit whose hash was computed from its fields and assigned last. After a change of
  the other fields with the stored hash kept, it is false exactly when the change
  changes the computed hash; a change that leaves the canonical serialization as it was
  still validates.
\<close>

theorem validate_commit_iff_hash_matches:
  "validate_commit sha c = Inr (compute_commit_hash sha c = Inr (hash c))
   \<and> (\<exists>h. compute_commit_hash sha c = Inr h)
   \<and> (compute_commit_hash sha c = Inr h \<longrightarrow> validate_commit sha (c\<lparr>hash := h\<rparr>) = Inr True)
   \<and> (validate_commit sha c = Inr True \<and> hash c' = hash c
      \<longrightarrow> (validate_commit sha c' = Inr False
           \<longleftrightarrow> compute_commit_hash sha c' \<noteq> compute_commit_hash sha c))"
  by (auto simp add: validate_commit_def compute_commit_hash_blocks write_header_def)

theorem validate_commit_iff_hash_matches_witness:
  "\<forall>sha. validate_commit sha
      \<lparr>hash = compute_hash sha
         (''parent:'' @ [CHR 0x0A] @ ''message:m'' @ [CHR 0x0A] @ ''timestamp:0'' @ [CHR 0x0A] @
          ''table:t'' @ [CHR 0x0A] @ ''row:1'' @ [CHR 0x0A]),
       parent_hash = [], message = ''m'', timestamp = 0,
       table_data = [(''t'', [[Integer 1]])], table_schemas = []\<rparr>
     = Inr True"
proof
  fix sha
  show "validate_commit sha
      \<lparr>hash = compute_hash sha
         (''parent:'' @ [CHR 0x0A] @ ''message:m'' @ [CHR 0x0A] @ ''timestamp:0'' @ [CHR 0x0A] @
          ''table:t'' @ [CHR 0x0A] @ ''row:1'' @ [CHR 0x0A]),
       parent_hash = [], message = ''m'', timestamp = 0,
       table_data = [(''t'', [[Integer 1]])], table_schemas = []\<rparr>
     = Inr True"
    using validate_commit_iff_hash_matches
      [where sha = sha
         and c = "\<lparr>hash = [], parent_hash = [], message = ''m'', timestamp = 0,
            table_data = [(''t'', [[Integer 1]])], table_schemas = []\<rparr>"
         and h = "compute_hash sha
           (''parent:'' @ [CHR 0x0A] @ ''message:m'' @ [CHR 0x0A] @ ''timestamp:0'' @ [CHR 0x0A] @
            ''table:t'' @ [CHR 0x0A] @ ''row:1'' @ [CHR 0x0A])"]
    by (simp add: compute_commit_hash_blocks write_header_def table_block_def row_line_def
        to_string_examples to_string_small)
qed

text \<open>
  The claim as stated fails: a commit is built and its hash assigned last; then its
  \<open>table_data\<close> is changed (the cell Integer 1 becomes the Text \<open>"1"\<close>) and the hash is
  kept. The two versions serialize to the same bytes, so \<open>validate_commit\<close> is still
  true, for every digest function.
\<close>

theorem validate_commit_after_mutation_counterexample:
  "(\<forall>sha. validate_commit sha
      \<lparr>hash = compute_hash sha
         (''parent:'' @ [CHR 0x0A] @ ''message:m'' @ [CHR 0x0A] @ ''timestamp:0'' @ [CHR 0x0A] @
          ''table:t'' @ [CHR 0x0A] @ ''row:1'' @ [CHR 0x0A]),
       parent_hash = [], message = ''m'', timestamp = 0,
       table_data = [(''t'', [[Integer 1]])], table_schemas = []\<rparr>
     = Inr True)
   \<and> (\<forall>sha. validate_commit sha
      \<lparr>hash = compute_hash sha
         (''parent:'' @ [CHR 0x0A] @ ''message:m'' @ [CHR 0x0A] @ ''timestamp:0'' @ [CHR 0x0A] @
          ''table:t'' @ [CHR 0x0A] @ ''row:1'' @ [CHR 0x0A]),
       parent_hash = [], message = ''m'', timestamp = 0,
       table_data = [(''t'', [[Text ''1'']])], table_schemas = []\<rparr>
     = Inr True)
   \<and> [(''t'', [[Text ''1'']])] \<noteq> [(''t'', [[Integer 1]])]"
  by (simp add: validate_commit_def compute_commit_hash_blocks write_header_def table_block_def
      row_line_def to_string_examples to_string_small)

text \<open>
  C5, as amended: the hash is a function of \<open>parent_hash\<close>, \<open>message\<close>, \<open>timestamp\<close>
  and the content of \<open>table_data\<close> alone, so it is the same on every call and for every
  order in which the tables were inserted. The rows of a table are serialized in stored
  order: replacing the rows of one table (by a permutation of them, or by anything
  else) changes the canonical serialization exactly when it changes the concatenated
  \<open>row:\<close> lines of that table, and the hash is the digest of that serialization; it
  stays the same when the lines stay the same.
\<close>

theorem compute_commit_hash_order_sensitivity:
  "(parent_hash c1 = parent_hash c2 \<and> message c1 = message c2 \<and> timestamp c1 = timestamp c2
      \<and> distinct (map fst (table_data c1)) \<and> distinct (map fst (table_data c2))
      \<and> map_of (table_data c1) = map_of (table_data c2)
    \<longrightarrow> compute_commit_hash sha c1 = compute_commit_hash sha c2)
   \<and> (distinct (map fst (table_data c)) \<and> map_of (table_data c) t = Some rows
    \<longrightarrow> compute_commit_hash sha c = Inr (compute_hash sha (canonicalize c))
      \<and> compute_commit_hash sha (c\<lparr>table_data := AList.update t rows' (table_data c)\<rparr>)
          = Inr (compute_hash sha
              (canonicalize (c\<lparr>table_data := AList.update t rows' (table_data c)\<rparr>)))
      \<and> (canonicalize (c\<lparr>table_data := AList.update t rows' (table_data c)\<rparr>) = canonicalize c
          \<longleftrightarrow> concat (map row_line rows') = concat (map row_line rows)))"
proof -
  have "compute_commit_hash sha (c\<lparr>table_data := AList.update t rows' (table_data c)\<rparr>)
      = Inr (compute_hash sha
          (canonicalize (c\<lparr>table_data := AList.update t rows' (table_data c)\<rparr>)))"
    if "distinct (map fst (table_data c))"
    using that by (simp add: compute_commit_hash_canonicalize distinct_update)
  then show ?thesis
    using compute_commit_hash_cong [of c1 c2 sha] canonicalize_update_rows [of c t rows rows']
      compute_commit_hash_canonicalize [of c sha]
    by blast
qed

theorem compute_commit_hash_order_sensitivity_witness:
  "(\<forall>sha. compute_commit_hash sha
      \<lparr>hash = [], parent_hash = [], message = ''m'', timestamp = 0,
       table_data = [(''a'', [[Integer 1], [Integer 2]]), (''b'', [])], table_schemas = []\<rparr>
     = compute_commit_hash sha
      \<lparr>hash = [], parent_hash = [], message = ''m'', timestamp = 0,
       table_data = [(''b'', []), (''a'', [[Integer 1], [Integer 2]])], table_schemas = []\<rparr>)
   \<and> canonicalize
      \<lparr>hash = [], parent_hash = [], message = ''m'', timestamp = 0,
       table_data = [(''a'', [[Integer 2], [Integer 1]]), (''b'', [])], table_schemas = []\<rparr>
     \<noteq> canonicalize
      \<lparr>hash = [], parent_hash = [], message = ''m'', timestamp = 0,
       table_data = [(''a'', [[Integer 1], [Integer 2]]), (''b'', [])], table_schemas = []\<rparr>"
proof -
  let ?c = "\<lparr>hash = [], parent_hash = [], message = ''m'', timestamp = 0,
       table_data = [(''a'', [[Integer 1], [Integer 2]]), (''b'', [])], table_schemas = []\<rparr>"
  let ?c' = "\<lparr>hash = [], parent_hash = [], message = ''m'', timestamp = 0,
       table_data = [(''b'', []), (''a'', [[Integer 1], [Integer 2]])], table_schemas = []\<rparr>"
  have "compute_commit_hash sha ?c = compute_commit_hash sha ?c'" for sha
    using compute_commit_hash_order_sensitivity
      [where sha = sha and ?c1.0 = ?c and ?c2.0 = ?c']
    by (simp add: fun_eq_iff)
  moreover have "canonicalize
      \<lparr>hash = [], parent_hash = [], message = ''m'', timestamp = 0,
       table_data = [(''a'', [[Integer 2], [Integer 1]]), (''b'', [])], table_schemas = []\<rparr>
     \<noteq> canonicalize ?c"
    using compute_commit_hash_order_sensitivity
      [where c = ?c and t = "''a''" and rows = "[[Integer 1], [Integer 2]]"
         and rows' = "[[Integer 2], [Integer 1]]"]
    by (simp add: row_line_def to_string_small)
  ultimately show ?thesis by blast
qed

text \<open>
  The claim as stated fails: the rows \<open>[1]\<close> and \<open>["1"]\<close> of one table are swapped.
  The two row sequences differ, both serialize to the lines \<open>row:1\<close>, \<open>row:1\<close>, and the
  two commits have the same hash for every digest function.
\<close>

theorem compute_commit_hash_row_order_counterexample:
  "(\<forall>sha. compute_commit_hash sha
      \<lparr>hash = [], parent_hash = [], message = ''m'', timestamp = 0,
       table_data = [(''t'', [[Integer 1], [Text ''1'']])], table_schemas = []\<rparr>
     = compute_commit_hash sha
      \<lparr>hash = [], parent_hash = [], message = ''m'', timestamp = 0,
       table_data = [(''t'', [[Text ''1''], [Integer 1]])], table_schemas = []\<rparr>)
   \<and> [[Integer 1], [Text ''1'']] \<noteq> [[Text ''1''], [Integer 1]]
   \<and> mset [[Integer 1], [Text ''1'']] = mset [[Text ''1''], [Integer 1]]"
  by (simp add: compute_commit_hash_blocks write_header_def table_block_def row_line_def
      to_string_small)

subsection \<open>Diffs of a commit with itself\<close>

lemma schema_equal_refl: "schema_equal s s"
  by (simp add: schema_equal_def list_all2_refl)

lemma schemas_equal_refl: "schemas_equal a a"
  by (cases a) (simp_all add: schemas_equal_def schema_equal_refl)

lemma mset_fold_remove1: "mset (fold remove1 ys xs) = mset xs - mset ys"
  by (induction ys arbitrary: xs) simp_all

lemma fold_remove1_self: "fold remove1 xs xs = []"
  using mset_fold_remove1 [of xs xs] by simp

lemma unkeyed_row_diffs_self: "unkeyed_row_diffs rows rows = []"
  by (simp add: unkeyed_row_diffs_def fold_remove1_self)

lemma values_equal_self:
  "values_equal v v \<longleftrightarrow> \<not> is_Null v \<and> \<not> (\<exists>s. v = Float (DNaN s))"
proof (cases v)
  case (Float d)
  then show ?thesis by (cases d) (simp_all add: values_equal_def)
qed (simp_all add: values_equal_def)

lemma rows_equal_self: "(\<forall>v \<in> set r. values_equal v v) \<Longrightarrow> rows_equal r r"
  by (simp add: rows_equal_def list_all2_same)

lemma keyed_row_diffs_self:
  assumes cells: "\<forall>r \<in> set rows. k < length r \<and> (\<forall>v \<in> set r. values_equal v v)"
    and keys: "\<forall>r \<in> set rows. \<forall>r' \<in> set rows.
                 values_equal (key_cell k r) (key_cell k r') \<longrightarrow> r = r'"
  shows "keyed_row_diffs k rows rows = []"
proof -
  have self: "values_equal (key_cell k r) (key_cell k r)" if "r \<in> set rows" for r
    using cells that by (simp add: key_cell_def)
  have found: "find (\<lambda>r'. values_equal (key_cell k r) (key_cell k r')) rows = Some r"
    if "r \<in> set rows" for r
  proof (cases "find (\<lambda>r'. values_equal (key_cell k r) (key_cell k r')) rows")
    case None
    with that self show ?thesis by (auto simp add: find_None_iff)
  next
    case (Some r')
    then have "r' \<in> set rows" "values_equal (key_cell k r) (key_cell k r')"
      by (auto simp add: find_Some_iff)
    with keys that Some show ?thesis by auto
  qed
  have "(case find (\<lambda>r'. values_equal (key_cell k r) (key_cell k r')) rows of
          None \<Rightarrow> [\<lparr>diff_type = DELETED, old_row = r, new_row = []\<rparr>]
        | Some r' \<Rightarrow>
            if rows_equal r r' then []
            else [\<lparr>diff_type = MODIFIED, old_row = r, new_row = r'\<rparr>]) = []"
    if "r \<in> set rows" for r
    using that found cells by (simp add: rows_equal_self)
  moreover have "list_ex (\<lambda>r. values_equal (key_cell k r) (key_cell k r')) rows"
    if "r' \<in> set rows" for r'
    using that self by (auto simp add: list_ex_iff)
  ultimately show ?thesis
    by (simp add: keyed_row_diffs_def)
qed

lemma table_diffs_self:
  assumes "td \<in> set (table_diffs (diff A A))"
  shows "\<exists>nm rows rows'. (nm, rows) \<in> set (table_data A)
           \<and> map_of (table_data A) nm = Some rows' \<and> td = diff_table A A nm rows rows'"
proof -
  from assms obtain nm rows where entry: "(nm, rows) \<in> set (table_data A)"
    and td: "td \<in> set (case map_of (table_data A) nm of
                None \<Rightarrow> []
              | Some to_rows \<Rightarrow> [diff_table A A nm rows to_rows])"
    by (auto simp add: diff_def)
  then show ?thesis
    by (cases "map_of (table_data A) nm") auto
qed

lemma diff_table_self_schema: "\<not> schema_changed (diff_table A A nm rows rows')"
  by (simp add: diff_table_def schemas_equal_refl)

lemma tables_added_self: "tables_added (diff A A) = []"
proof -
  have "map_of (table_data A) nm \<noteq> None" if "nm \<in> fst ` set (table_data A)" for nm
    using that by (metis domIff dom_map_of_conv_image_fst)
  then show ?thesis
    by (auto simp add: diff_def filter_empty_conv)
qed

lemma tables_dropped_self: "tables_dropped (diff A A) = []"
proof -
  have "map_of (table_data A) nm \<noteq> None" if "nm \<in> fst ` set (table_data A)" for nm
    using that by (metis domIff dom_map_of_conv_image_fst)
  then show ?thesis
    by (auto simp add: diff_def filter_empty_conv)
qed


lemma diff_table_self_rows:
  assumes "\<And>k. table_key A nm = Some k \<Longrightarrow>
      (\<forall>r \<in> set rows. k < length r \<and> (\<forall>v \<in> set r. values_equal v v))
      \<and> (\<forall>r \<in> set rows. \<forall>r' \<in> set rows.
            values_equal (key_cell k r) (key_cell k r') \<longrightarrow> r = r')"
  shows "row_diffs (diff_table A A nm rows rows) = []"
proof (cases "table_key A nm")
  case None
  then show ?thesis by (simp add: diff_table_def unkeyed_row_diffs_self)
next
  case (Some k')
  with assms [of k'] show ?thesis
    by (simp add: diff_table_def keyed_row_diffs_self)
qed

lemma concat_map_singletons:
  "(\<And>x. x \<in> set xs \<Longrightarrow> g x = [f x]) \<Longrightarrow> concat (map g xs) = map f xs"
  by (induction xs) simp_all

lemma table_diffs_self_shape:
  assumes "distinct (map fst (table_data A))"
  shows "table_diffs (diff A A)
           = map (\<lambda>(nm, rows). diff_table A A nm rows rows) (table_data A)"
proof -
  have "(case p of (nm, from_rows) \<Rightarrow>
           case map_of (table_data A) nm of
             None \<Rightarrow> []
           | Some to_rows \<Rightarrow> [diff_table A A nm from_rows to_rows])
        = [case p of (nm, rows) \<Rightarrow> diff_table A A nm rows rows]"
    if "p \<in> set (table_data A)" for p
    using assms that by (cases p) simp
  then have "concat (map (\<lambda>(nm, from_rows).
           case map_of (table_data A) nm of
             None \<Rightarrow> []
           | Some to_rows \<Rightarrow> [diff_table A A nm from_rows to_rows]) (table_data A))
      = map (\<lambda>(nm, rows). diff_table A A nm rows rows) (table_data A)"
    by (rule concat_map_singletons)
  then show ?thesis
    by (simp add: diff_def)
qed

lemma table_diffs_self_rows:
  assumes dist: "distinct (map fst (table_data A))"
    and td: "td \<in> set (table_diffs (diff A A))"
    and look: "map_of (table_data A) (table_name td) = Some rows"
    and clean: "\<And>k. table_key A (table_name td) = Some k \<Longrightarrow>
      (\<forall>r \<in> set rows. k < length r \<and> (\<forall>v \<in> set r. values_equal v v))
      \<and> (\<forall>r \<in> set rows. \<forall>r' \<in> set rows.
            values_equal (key_cell k r) (key_cell k r') \<longrightarrow> r = r')"
  shows "row_diffs td = []"
proof -
  from td obtain nm rows1 rows2 where entry: "(nm, rows1) \<in> set (table_data A)"
    and look2: "map_of (table_data A) nm = Some rows2"
    and eq: "td = diff_table A A nm rows1 rows2"
    using table_diffs_self by blast
  have nm: "table_name td = nm" by (simp add: eq diff_table_def)
  from dist entry have "map_of (table_data A) nm = Some rows1" by simp
  with look look2 nm have "rows1 = rows" "rows2 = rows" by simp_all
  with eq nm clean show ?thesis
    using diff_table_self_rows [where A = A and nm = nm and rows = rows] by simp
qed

text \<open>
  C9, as amended: \<open>diff(A, A)\<close> has no added and no dropped table and every TableDiff
  has \<open>schema_changed == false\<close>; there is one TableDiff per table. The \<open>row_diffs\<close>
  of a table's TableDiff are empty when the table has no primary-key column; when it
  has one they are empty if every row has the key cell, no cell of a row is Null or NaN
  (the values that \<open>values_equal\<close> does not equate with themselves) and rows with
  equal keys are equal rows. Each table is judged on its own rows.
\<close>

theorem diff_self_empty:
  "tables_added (diff A A) = []
   \<and> tables_dropped (diff A A) = []
   \<and> (\<forall>td \<in> set (table_diffs (diff A A)). \<not> schema_changed td)
   \<and> (distinct (map fst (table_data A)) \<longrightarrow>
        table_diffs (diff A A)
          = map (\<lambda>(nm, rows). diff_table A A nm rows rows) (table_data A))
   \<and> (table_key A nm = None \<longrightarrow> row_diffs (diff_table A A nm rows rows) = [])
   \<and> (table_key A nm = Some k
        \<and> (\<forall>r \<in> set rows. k < length r \<and> (\<forall>v \<in> set r. values_equal v v))
        \<and> (\<forall>r \<in> set rows. \<forall>r' \<in> set rows.
              values_equal (key_cell k r) (key_cell k r') \<longrightarrow> r = r')
      \<longrightarrow> row_diffs (diff_table A A nm rows rows) = [])
   \<and> (distinct (map fst (table_data A)) \<and> t \<in> set (table_diffs (diff A A))
        \<and> map_of (table_data A) (table_name t) = Some rows
        \<and> (\<forall>k. table_key A (table_name t) = Some k \<longrightarrow>
              (\<forall>r \<in> set rows. k < length r \<and> (\<forall>v \<in> set r. values_equal v v))
              \<and> (\<forall>r \<in> set rows. \<forall>r' \<in> set rows.
                    values_equal (key_cell k r) (key_cell k r') \<longrightarrow> r = r'))
      \<longrightarrow> row_diffs t = [])
   \<and> (values_equal v v \<longleftrightarrow> \<not> is_Null v \<and> \<not> (\<exists>s. v = Float (DNaN s)))"
proof -
  have schema: "\<forall>td \<in> set (table_diffs (diff A A)). \<not> schema_changed td"
    using table_diffs_self [of _ A] diff_table_self_schema by blast
  have shape: "distinct (map fst (table_data A)) \<longrightarrow>
        table_diffs (diff A A)
          = map (\<lambda>(nm, rows). diff_table A A nm rows rows) (table_data A)"
    using table_diffs_self_shape by blast
  have unkeyed: "table_key A nm = None \<longrightarrow> row_diffs (diff_table A A nm rows rows) = []"
  proof
    assume "table_key A nm = None"
    then show "row_diffs (diff_table A A nm rows rows) = []"
      by (intro diff_table_self_rows) simp
  qed
  have keyed: "table_key A nm = Some k
        \<and> (\<forall>r \<in> set rows. k < length r \<and> (\<forall>v \<in> set r. values_equal v v))
        \<and> (\<forall>r \<in> set rows. \<forall>r' \<in> set rows.
              values_equal (key_cell k r) (key_cell k r') \<longrightarrow> r = r')
      \<longrightarrow> row_diffs (diff_table A A nm rows rows) = []"
  proof
    assume h: "table_key A nm = Some k
        \<and> (\<forall>r \<in> set rows. k < length r \<and> (\<forall>v \<in> set r. values_equal v v))
        \<and> (\<forall>r \<in> set rows. \<forall>r' \<in> set rows.
              values_equal (key_cell k r) (key_cell k r') \<longrightarrow> r = r')"
    show "row_diffs (diff_table A A nm rows rows) = []"
    proof (rule diff_table_self_rows)
      fix k' assume "table_key A nm = Some k'"
      with h have "k' = k" by simp
      with h show "(\<forall>r \<in> set rows. k' < length r \<and> (\<forall>v \<in> set r. values_equal v v))
        \<and> (\<forall>r \<in> set rows. \<forall>r' \<in> set rows.
              values_equal (key_cell k' r) (key_cell k' r') \<longrightarrow> r = r')"
        by simp
    qed
  qed
  have each: "distinct (map fst (table_data A)) \<and> t \<in> set (table_diffs (diff A A))
        \<and> map_of (table_data A) (table_name t) = Some rows
        \<and> (\<forall>k. table_key A (table_name t) = Some k \<longrightarrow>
              (\<forall>r \<in> set rows. k < length r \<and> (\<forall>v \<in> set r. values_equal v v))
              \<and> (\<forall>r \<in> set rows. \<forall>r' \<in> set rows.
                    values_equal (key_cell k r) (key_cell k r') \<longrightarrow> r = r'))
      \<longrightarrow> row_diffs t = []"
    using table_diffs_self_rows [where A = A and td = t and rows = rows] by blast
  show ?thesis
    by (intro conjI schema shape unkeyed keyed each tables_added_self tables_dropped_self
        values_equal_self)
qed

theorem diff_self_empty_witness:
  "table_diffs (diff
      \<lparr>hash = [], parent_hash = [], message = ''m'', timestamp = 0,
       table_data = [(''log'', [[Null], [Null]]),
                     (''items'', [[Integer 10, Text ''pen''], [Integer 11, Text ''ink'']]),
                     (''users'', [[Integer 1, Null]])],
       table_schemas =
         [(''log'', add_column empty_schema
            \<lparr>name = ''msg'', type = VARCHAR, is_primary_key = False, is_nullable = True\<rparr>),
          (''items'', add_column (add_column empty_schema
            \<lparr>name = ''id'', type = INTEGER, is_primary_key = True, is_nullable = False\<rparr>)
            \<lparr>name = ''name'', type = VARCHAR, is_primary_key = False, is_nullable = True\<rparr>),
          (''users'', add_column (add_column empty_schema
            \<lparr>name = ''id'', type = INTEGER, is_primary_key = True, is_nullable = False\<rparr>)
            \<lparr>name = ''name'', type = VARCHAR, is_primary_key = False, is_nullable = True\<rparr>)]\<rparr>
      \<lparr>hash = [], parent_hash = [], message = ''m'', timestamp = 0,
       table_data = [(''log'', [[Null], [Null]]),
                     (''items'', [[Integer 10, Text ''pen''], [Integer 11, Text ''ink'']]),
                     (''users'', [[Integer 1, Null]])],
       table_schemas =
         [(''log'', add_column empty_schema
            \<lparr>name = ''msg'', type = VARCHAR, is_primary_key = False, is_nullable = True\<rparr>),
          (''items'', add_column (add_column empty_schema
            \<lparr>name = ''id'', type = INTEGER, is_primary_key = True, is_nullable = False\<rparr>)
            \<lparr>name = ''name'', type = VARCHAR, is_primary_key = False, is_nullable = True\<rparr>),
          (''users'', add_column (add_column empty_schema
            \<lparr>name = ''id'', type = INTEGER, is_primary_key = True, is_nullable = False\<rparr>)
            \<lparr>name = ''name'', type = VARCHAR, is_primary_key = False, is_nullable = True\<rparr>)]\<rparr>)
     = [\<lparr>table_name = ''log'', row_diffs = [], schema_changed = False\<rparr>,
        \<lparr>table_name = ''items'', row_diffs = [], schema_changed = False\<rparr>,
        \<lparr>table_name = ''users'',
         row_diffs = [\<lparr>diff_type = MODIFIED, old_row = [Integer 1, Null],
                       new_row = [Integer 1, Null]\<rparr>],
         schema_changed = False\<rparr>]"
proof -
  let ?A = "\<lparr>hash = [], parent_hash = [], message = ''m'', timestamp = 0,
       table_data = [(''log'', [[Null], [Null]]),
                     (''items'', [[Integer 10, Text ''pen''], [Integer 11, Text ''ink'']]),
                     (''users'', [[Integer 1, Null]])],
       table_schemas =
         [(''log'', add_column empty_schema
            \<lparr>name = ''msg'', type = VARCHAR, is_primary_key = False, is_nullable = True\<rparr>),
          (''items'', add_column (add_column empty_schema
            \<lparr>name = ''id'', type = INTEGER, is_primary_key = True, is_nullable = False\<rparr>)
            \<lparr>name = ''name'', type = VARCHAR, is_primary_key = False, is_nullable = True\<rparr>),
          (''users'', add_column (add_column empty_schema
            \<lparr>name = ''id'', type = INTEGER, is_primary_key = True, is_nullable = False\<rparr>)
            \<lparr>name = ''name'', type = VARCHAR, is_primary_key = False, is_nullable = True\<rparr>)]\<rparr>"
  have keys: "table_key ?A ''log'' = None" "table_key ?A ''items'' = Some 0"
    "table_key ?A ''users'' = Some 0"
    by (simp_all add: table_key_def primary_key_index_def add_column_def empty_schema_def upt_rec)
  have shape: "table_diffs (diff ?A ?A) =
      [diff_table ?A ?A ''log'' [[Null], [Null]] [[Null], [Null]],
       diff_table ?A ?A ''items'' [[Integer 10, Text ''pen''], [Integer 11, Text ''ink'']]
         [[Integer 10, Text ''pen''], [Integer 11, Text ''ink'']],
       diff_table ?A ?A ''users'' [[Integer 1, Null]] [[Integer 1, Null]]]"
    using diff_self_empty [where A = ?A] by simp
  have log: "row_diffs (diff_table ?A ?A ''log'' [[Null], [Null]] [[Null], [Null]]) = []"
    using diff_self_empty [where A = ?A and nm = "''log''" and rows = "[[Null], [Null]]"]
    by (simp add: keys)
  have items: "row_diffs (diff_table ?A ?A ''items''
         [[Integer 10, Text ''pen''], [Integer 11, Text ''ink'']]
         [[Integer 10, Text ''pen''], [Integer 11, Text ''ink'']]) = []"
    using diff_self_empty [where A = ?A and nm = "''items''" and k = 0
        and rows = "[[Integer 10, Text ''pen''], [Integer 11, Text ''ink'']]"]
    by (simp add: keys key_cell_def values_equal_def)
  have "diff_table ?A ?A ''log'' [[Null], [Null]] [[Null], [Null]]
      = \<lparr>table_name = ''log'', row_diffs = [], schema_changed = False\<rparr>"
    using log by (simp add: diff_table_def schemas_equal_refl)
  moreover have "diff_table ?A ?A ''items''
         [[Integer 10, Text ''pen''], [Integer 11, Text ''ink'']]
         [[Integer 10, Text ''pen''], [Integer 11, Text ''ink'']]
      = \<lparr>table_name = ''items'', row_diffs = [], schema_changed = False\<rparr>"
    using items by (simp add: diff_table_def schemas_equal_refl)
  moreover have "diff_table ?A ?A ''users'' [[Integer 1, Null]] [[Integer 1, Null]]
      = \<lparr>table_name = ''users'',
         row_diffs = [\<lparr>diff_type = MODIFIED, old_row = [Integer 1, Null],
                       new_row = [Integer 1, Null]\<rparr>],
         schema_changed = False\<rparr>"
    by (simp add: diff_table_def keys keyed_row_diffs_def key_cell_def values_equal_def
        rows_equal_def schemas_equal_refl)
  ultimately show ?thesis
    using shape by simp
qed

text \<open>
  The claim as stated fails: the table \<open>users\<close> has the key column \<open>id\<close> and a nullable
  column \<open>name\<close>, and the one row \<open>(1, NULL)\<close>, which the schema accepts. The row is
  matched with itself by its key; its Null cell is not \<open>values_equal\<close> to itself, so
  \<open>diff(A, A)\<close> reports the row as MODIFIED.
\<close>

theorem diff_self_null_cell_counterexample:
  "table_diffs (diff
      \<lparr>hash = [], parent_hash = [], message = ''m'', timestamp = 0,
       table_data = [(''users'', [[Integer 1, Null]])],
       table_schemas = [(''users'', add_column (add_column empty_schema
          \<lparr>name = ''id'', type = INTEGER, is_primary_key = True, is_nullable = False\<rparr>)
          \<lparr>name = ''name'', type = VARCHAR, is_primary_key = False, is_nullable = True\<rparr>)]\<rparr>
      \<lparr>hash = [], parent_hash = [], message = ''m'', timestamp = 0,
       table_data = [(''users'', [[Integer 1, Null]])],
       table_schemas = [(''users'', add_column (add_column empty_schema
          \<lparr>name = ''id'', type = INTEGER, is_primary_key = True, is_nullable = False\<rparr>)
          \<lparr>name = ''name'', type = VARCHAR, is_primary_key = False, is_nullable = True\<rparr>)]\<rparr>)
     = [\<lparr>table_name = ''users'',
         row_diffs = [\<lparr>diff_type = MODIFIED, old_row = [Integer 1, Null],
                       new_row = [Integer 1, Null]\<rparr>],
         schema_changed = False\<rparr>]
   \<and> validate_row (add_column (add_column empty_schema
          \<lparr>name = ''id'', type = INTEGER, is_primary_key = True, is_nullable = False\<rparr>)
          \<lparr>name = ''name'', type = VARCHAR, is_primary_key = False, is_nullable = True\<rparr>)
        [Integer 1, Null] = []"
proof -
  let ?s = "add_column (add_column empty_schema
          \<lparr>name = ''id'', type = INTEGER, is_primary_key = True, is_nullable = False\<rparr>)
          \<lparr>name = ''name'', type = VARCHAR, is_primary_key = False, is_nullable = True\<rparr>"
  have key: "primary_key_index ?s = Some 0"
    by (simp add: primary_key_index_def add_column_def empty_schema_def upt_rec)
  have "validate_row ?s [Integer 1, Null] = []"
    by (simp add: validate_row_def validate_cells.simps validate_def is_null_def
        add_column_def empty_schema_def)
  then show ?thesis
    by (simp add: diff_def diff_table_def table_key_def key keyed_row_diffs_def key_cell_def
        values_equal_def rows_equal_def schemas_equal_def schema_equal_refl)
qed

end
